theory Spec2Isabelle
  imports Complex_Main
begin

section \<open>Python values shared by the modules\<close>

text \<open>
  Exceptions are values.  Each constructor is the Python exception class that the
  source (or the library call it makes) raises; the string is its message.
  \<open>ModelError\<close> stands for whatever the language-model backend raises from
  \<open>prompt\<close>.
\<close>

datatype error =
    ValueError string
  | AssertionError string
  | TypeError string
  | IndexError string
  | OverflowError string
  | AttributeError string
  | FileNotFoundError string
  | ModelError string

text \<open>\<open>sep.join(xs)\<close> of Python.\<close>

fun join :: "string \<Rightarrow> string list \<Rightarrow> string" where
  "join sep [] = []"
| "join sep [x] = x"
| "join sep (x # y # ys) = x @ sep @ join sep (y # ys)"

definition newline :: string where
  "newline = [CHR 0x0A]"

section \<open>sdl/actors.py\<close>

text \<open>
  A prompt part is the dict \<open>{"role": ..., "content": ...}\<close>.
\<close>

record chat_msg =
  role :: string
  content :: string

text \<open>
  The world outside the program: the state of the language-model backend (of any
  type \<open>'w\<close>), the list of calls that \<open>prompt\<close> has received (messages and
  stop list, oldest first), and what has been printed (one entry per \<open>print\<close>).
\<close>

record 'w world =
  model_state :: 'w
  prompt_log :: "(chat_msg list \<times> string list) list"
  stdout :: "string list"

text \<open>
  \<open>models.LlamaModel\<close> is defined in another module (\<open>sdl/models.py\<close>): a model is any function
  that answers a prompt with a text or raises, and may change its own state.
\<close>

type_synonym 'w LlamaModel =
  "chat_msg list \<Rightarrow> string list \<Rightarrow> 'w \<Rightarrow> (error + string) \<times> 'w"

text \<open>\<open>model.prompt(messages, stop_list=...)\<close>: one call, recorded in the world.\<close>

definition prompt ::
  "'w LlamaModel \<Rightarrow> chat_msg list \<Rightarrow> string list \<Rightarrow> 'w world \<Rightarrow> (error + string) \<times> 'w world" where
  "prompt m messages stop_list w =
     (let (response, s) = m messages stop_list (model_state w)
      in (response,
          w\<lparr>model_state := s, prompt_log := prompt_log w @ [(messages, stop_list)]\<rparr>))"

text \<open>The two concrete subclasses of \<open>LlmActor\<close>.\<close>

datatype actor_kind = LLMUser | LLMAnnotator

record 'w LlmActor =
  model :: "'w LlamaModel"
  name :: string
  attributes :: "string list"
  actor_context :: string
  instructions :: string
  kind :: actor_kind

definition LlmActor_init ::
  "actor_kind \<Rightarrow> 'w LlamaModel \<Rightarrow> string \<Rightarrow> string list \<Rightarrow> string \<Rightarrow> string \<Rightarrow> 'w LlmActor" where
  "LlmActor_init k m n attrs ctx instr =
     \<lparr>model = m, name = n, attributes = attrs, actor_context = ctx,
      instructions = instr, kind = k\<rparr>"

definition get_name :: "'w LlmActor \<Rightarrow> string" where
  "get_name self = name self"

definition system_prompt :: "'w LlmActor \<Rightarrow> chat_msg" where
  "system_prompt self =
     \<lparr>role = ''system'',
      content = ''You are '' @ name self @ '' '' @ join '', '' (attributes self)
        @ ''. Context: '' @ actor_context self
        @ ''. Your instructions: '' @ instructions self @ ''.''\<rparr>"

text \<open>\<open>_message_prompt\<close>, dispatched on the subclass.\<close>

definition message_prompt :: "'w LlmActor \<Rightarrow> string list \<Rightarrow> chat_msg" where
  "message_prompt self history =
     (case kind self of
        LLMUser \<Rightarrow>
          \<lparr>role = ''user'',
           content = join newline history @ newline @ ''User '' @ get_name self @ '' posted:''\<rparr>
      | LLMAnnotator \<Rightarrow>
          \<lparr>role = ''user'',
           content = ''Conversation so far:'' @ newline @ newline
             @ join newline history @ newline @ ''Output:''\<rparr>)"

text \<open>
  \<open>speak\<close> returns the response (or the exception of the model), together with
  the actor object and the world as they are after the call.
\<close>

definition speak ::
  "'w LlmActor \<Rightarrow> string list \<Rightarrow> 'w world \<Rightarrow> (error + string) \<times> 'w LlmActor \<times> 'w world" where
  "speak self history w =
     (let sp = system_prompt self;
          mp = message_prompt self history;
          (response, w') = prompt (model self) [sp, mp] [''User''] w
      in (response, self, w'))"

definition describe :: "'w LlmActor \<Rightarrow> string" where
  "describe self = content (system_prompt self)"

text \<open>\<open>type(actor).__name__\<close>.\<close>

definition type_name :: "'w LlmActor \<Rightarrow> string" where
  "type_name self = (case kind self of LLMUser \<Rightarrow> ''LLMUser'' | LLMAnnotator \<Rightarrow> ''LLMAnnotator'')"

section \<open>collections.deque with a maximal length\<close>

text \<open>
  \<open>collections.deque(maxlen=n)\<close> converts \<open>n\<close> to a C \<open>ssize_t\<close> (64 bits here) and
  raises \<open>OverflowError\<close> when it does not fit; it raises \<open>ValueError\<close> for a
  negative \<open>n\<close> that fits.  \<open>append\<close> adds the item on the right and, when the
  deque is then longer than \<open>maxlen\<close>, discards one item from the left; with
  \<open>maxlen = 0\<close> the deque stays empty.
\<close>

definition ssize_max :: int where
  "ssize_max = 2 ^ 63 - 1"

record 'a deque =
  maxlen :: nat
  items :: "'a list"

definition deque_new :: "int \<Rightarrow> error + 'a deque" where
  "deque_new n =
     (if n < - ssize_max - 1 \<or> ssize_max < n
      then Inl (OverflowError ''Python int too large to convert to C ssize_t'')
      else if n < 0 then Inl (ValueError ''maxlen must be non-negative'')
      else Inr \<lparr>maxlen = nat n, items = []\<rparr>)"

definition deque_append :: "'a deque \<Rightarrow> 'a \<Rightarrow> 'a deque" where
  "deque_append d x =
     (let xs = items d @ [x]
      in d\<lparr>items := (if maxlen d < length xs then tl xs else xs)\<rparr>)"

section \<open>sdl/annotation.py\<close>

text \<open>
  \<open>conv_data_dict\<close> is the loaded document of a finished conversation: its
  \<open>"id"\<close> and its \<open>"logs"\<close>, a list of (username, message) pairs.
\<close>

record conv_data =
  conv_id :: string
  logs :: "(string \<times> string) list"

record 'w AnnotationConv =
  annotator :: "'w LlmActor"
  history_ctx_len :: int
  annotation_logs :: "(string \<times> string) list"
  conv_data_dict :: conv_data

text \<open>
  \<open>__init__\<close>; the second argument is the document that \<open>json.load\<close> reads from
  \<open>conv_logs_path\<close>.
\<close>

definition AnnotationConv_init :: "'w LlmActor \<Rightarrow> conv_data \<Rightarrow> int \<Rightarrow> 'w AnnotationConv" where
  "AnnotationConv_init a d k =
     \<lparr>annotator = a, history_ctx_len = k, annotation_logs = [], conv_data_dict = d\<rparr>"

text \<open>
  The state of the loop of \<open>begin_annotation\<close>: the object, the local deque, the
  world, and a record of the calls of \<open>annotator.speak\<close> made so far (the list
  handed over and what came back), which the program does not keep but the
  properties below speak about.
\<close>

record 'w loop_state =
  self_obj :: "'w AnnotationConv"
  ctx_history :: "string deque"
  speak_calls :: "(string list \<times> (error + string)) list"
  loop_world :: "'w world"

text \<open>
  \<open>util.format_chat_message\<close> is defined in another module and is the
  parameter \<open>fmt\<close>; \<open>fill\<close> is \<open>textwrap.fill\<close>.  The result is the exception
  that ended the loop, if any, and the state reached.
\<close>

fun annotation_loop ::
  "(string \<Rightarrow> string \<Rightarrow> string) \<Rightarrow> (string \<Rightarrow> string) \<Rightarrow> bool \<Rightarrow> (string \<times> string) list
     \<Rightarrow> 'w loop_state \<Rightarrow> error option \<times> 'w loop_state" where
  "annotation_loop fmt fill verbose [] st = (None, st)"
| "annotation_loop fmt fill verbose ((username, message) # rest) st =
     (let formatted_message = fmt username message;
          ctx = deque_append (ctx_history st) formatted_message;
          (r, a, w) = speak (annotator (self_obj st)) (items ctx) (loop_world st);
          called = speak_calls st @ [(items ctx, r)]
      in case r of
           Inl e \<Rightarrow>
             (Some e,
              \<lparr>self_obj = (self_obj st)\<lparr>annotator := a\<rparr>, ctx_history = ctx,
               speak_calls = called, loop_world = w\<rparr>)
         | Inr annotation \<Rightarrow>
             annotation_loop fmt fill verbose rest
               \<lparr>self_obj = (self_obj st)
                  \<lparr>annotator := a,
                   annotation_logs := annotation_logs (self_obj st) @ [(message, annotation)]\<rparr>,
                ctx_history = ctx,
                speak_calls = called,
                loop_world =
                  (if verbose
                   then w\<lparr>stdout := stdout w @ [fill formatted_message, annotation]\<rparr>
                   else w)\<rparr>)"

record 'w annotation_run =
  raised :: "error option"
  conv :: "'w AnnotationConv"
  calls :: "(string list \<times> (error + string)) list"
  final_window :: "string list"
  world_after :: "'w world"

definition begin_annotation ::
  "(string \<Rightarrow> string \<Rightarrow> string) \<Rightarrow> (string \<Rightarrow> string) \<Rightarrow> 'w AnnotationConv \<Rightarrow> bool \<Rightarrow> 'w world
     \<Rightarrow> 'w annotation_run" where
  "begin_annotation fmt fill self verbose w =
     (case deque_new (history_ctx_len self) of
        Inl e \<Rightarrow>
          \<lparr>raised = Some e, conv = self, calls = [], final_window = [], world_after = w\<rparr>
      | Inr d \<Rightarrow>
          (let (e, st) =
                 annotation_loop fmt fill verbose (logs (conv_data_dict self))
                   \<lparr>self_obj = self, ctx_history = d, speak_calls = [], loop_world = w\<rparr>
           in \<lparr>raised = e, conv = self_obj st, calls = speak_calls st,
               final_window = items (ctx_history st), world_after = loop_world st\<rparr>))"

text \<open>
  The dict of \<open>to_dict\<close>: its values are strings, an integer, or the list of pairs.
  \<open>now\<close> is \<open>datetime.datetime.now().strftime(timestamp_format)\<close>.
\<close>

datatype dict_value = VStr string | VInt int | VPairs "(string \<times> string) list"

definition to_dict :: "'w AnnotationConv \<Rightarrow> string \<Rightarrow> (string \<times> dict_value) list" where
  "to_dict self now =
     [(''conv_id'', VStr (conv_id (conv_data_dict self))),
      (''timestamp'', VStr now),
      (''annotator_type'', VStr (type_name (annotator self))),
      (''annotator_prompt'', VStr (describe (annotator self))),
      (''ctx_length'', VInt (history_ctx_len self)),
      (''logs'', VPairs (annotation_logs self))]"

text \<open>Reading a key of a dict.\<close>

definition dict_get :: "(string \<times> 'v) list \<Rightarrow> string \<Rightarrow> 'v option" where
  "dict_get d k = map_of d k"

text \<open>Reading the \<open>"logs"\<close> field back from an exported dict.\<close>

definition read_logs_field :: "(string \<times> dict_value) list \<Rightarrow> (string \<times> string) list option" where
  "read_logs_field doc = (case dict_get doc ''logs'' of Some (VPairs ps) \<Rightarrow> Some ps | _ \<Rightarrow> None)"

text \<open>The formatted transcript entries, in transcript order.\<close>

definition entries :: "(string \<Rightarrow> string \<Rightarrow> string) \<Rightarrow> 'w AnnotationConv \<Rightarrow> string list" where
  "entries fmt self = map (\<lambda>(username, message). fmt username message) (logs (conv_data_dict self))"

text \<open>The last \<open>n\<close> elements of a list (all of it when it is shorter).\<close>

definition last_n :: "nat \<Rightarrow> 'a list \<Rightarrow> 'a list" where
  "last_n n xs = drop (length xs - n) xs"

section \<open>sdl/conversation_io.py\<close>

text \<open>
  Python floats: a finite float is the real number it denotes; the other three are
  \<open>inf\<close>, \<open>-inf\<close> and \<open>nan\<close>.
\<close>

datatype pyfloat = Finite real | PosInf | NegInf | NaN

text \<open>
  What \<open>json.load\<close> returns and \<open>json.dump\<close> accepts; these are also the values
  that a field of an object read from a file can hold.  An object keeps its keys in
  document order.
\<close>

datatype json =
    JNull
  | JBool bool
  | JInt int
  | JFloat pyfloat
  | JStr string
  | JArr "json list"
  | JObj "(string \<times> json) list"

text \<open>
  A dict is the list of its items in insertion order, with distinct keys.
  \<open>d[k] = v\<close> replaces the value of a key that is present and appends the item
  otherwise; \<open>json.load\<close> builds the dict of an object in this way, so of a
  repeated key the last value stays.
\<close>

fun dict_set :: "(string \<times> 'v) list \<Rightarrow> string \<Rightarrow> 'v \<Rightarrow> (string \<times> 'v) list" where
  "dict_set [] k v = [(k, v)]"
| "dict_set ((k', v') # rest) k v =
     (if k' = k then (k', v) # rest else (k', v') # dict_set rest k v)"

definition dict_of :: "(string \<times> 'v) list \<Rightarrow> (string \<times> 'v) list" where
  "dict_of kvs = fold (\<lambda>(k, v) d. dict_set d k v) kvs []"

text \<open>
  The dataclass with every field at its annotated type: this is the view that the
  typed code below (the generator and the actors it builds) has of an instance.
  Its fields \<open>context\<close> and \<open>history_ctx_len\<close> are named \<open>data_context\<close> and
  \<open>data_history_ctx_len\<close> here.
\<close>

record LLMConvData =
  data_context :: string
  user_names :: "string list"
  user_attributes :: "string list list"
  user_instructions :: string
  turn_manager_type :: string
  turn_manager_config :: "(string \<times> pyfloat) list"
  conv_len :: int
  data_history_ctx_len :: int
  moderator_name :: "string option"
  moderator_attributes :: "string list option"
  moderator_instructions :: "string option"

definition post_init :: "LLMConvData \<Rightarrow> error + LLMConvData" where
  "post_init self =
     (if length (user_names self) = length (user_attributes self) then Inr self
      else Inl (AssertionError ''Number of actor names and actor attribute lists must be the same''))"

text \<open>The generated \<open>__init__\<close> with every argument given, followed by \<open>__post_init__\<close>.\<close>

definition LLMConvData_init ::
  "string \<Rightarrow> string list \<Rightarrow> string list list \<Rightarrow> string \<Rightarrow> string \<Rightarrow> (string \<times> pyfloat) list \<Rightarrow> int \<Rightarrow> int
     \<Rightarrow> string option \<Rightarrow> string list option \<Rightarrow> string option \<Rightarrow> error + LLMConvData" where
  "LLMConvData_init ctx names attrs instr tm_type tm_config clen hlen m_name m_attrs m_instr =
     post_init
       \<lparr>data_context = ctx, user_names = names, user_attributes = attrs,
        user_instructions = instr, turn_manager_type = tm_type, turn_manager_config = tm_config,
        conv_len = clen, data_history_ctx_len = hlen, moderator_name = m_name,
        moderator_attributes = m_attrs, moderator_instructions = m_instr\<rparr>"

text \<open>
  The dataclass as Python holds it: the annotations are not checked, and each field
  is whatever value it was given.
\<close>

record LLMConvData_raw =
  raw_context :: json
  raw_user_names :: json
  raw_user_attributes :: json
  raw_user_instructions :: json
  raw_turn_manager_type :: json
  raw_turn_manager_config :: json
  raw_conv_len :: json
  raw_history_ctx_len :: json
  raw_moderator_name :: json
  raw_moderator_attributes :: json
  raw_moderator_instructions :: json

text \<open>
  \<open>len(x)\<close>: defined for strings (lists of characters here), lists and dicts, a
  \<open>TypeError\<close> for every other value.
\<close>

definition py_len :: "json \<Rightarrow> error + nat" where
  "py_len x =
     (case x of
        JStr s \<Rightarrow> Inr (length s)
      | JArr xs \<Rightarrow> Inr (length xs)
      | JObj kvs \<Rightarrow> Inr (length kvs)
      | _ \<Rightarrow> Inl (TypeError ''object has no len()''))"

text \<open>\<open>__post_init__\<close> on such an object.\<close>

definition raw_post_init :: "LLMConvData_raw \<Rightarrow> error + LLMConvData_raw" where
  "raw_post_init self =
     (case py_len (raw_user_names self) of
        Inl e \<Rightarrow> Inl e
      | Inr n \<Rightarrow>
          (case py_len (raw_user_attributes self) of
             Inl e \<Rightarrow> Inl e
           | Inr m \<Rightarrow>
               if n = m then Inr self
               else Inl (AssertionError
                      ''Number of actor names and actor attribute lists must be the same'')))"

text \<open>The values of a well-typed instance, as JSON values.\<close>

definition of_optional :: "('a \<Rightarrow> json) \<Rightarrow> 'a option \<Rightarrow> json" where
  "of_optional f v = (case v of None \<Rightarrow> JNull | Some x \<Rightarrow> f x)"

definition of_str_list :: "string list \<Rightarrow> json" where
  "of_str_list xs = JArr (map JStr xs)"

definition of_typed :: "LLMConvData \<Rightarrow> LLMConvData_raw" where
  "of_typed d =
     \<lparr>raw_context = JStr (data_context d),
      raw_user_names = of_str_list (user_names d),
      raw_user_attributes = JArr (map of_str_list (user_attributes d)),
      raw_user_instructions = JStr (user_instructions d),
      raw_turn_manager_type = JStr (turn_manager_type d),
      raw_turn_manager_config = JObj (map (\<lambda>(k, x). (k, JFloat x)) (turn_manager_config d)),
      raw_conv_len = JInt (conv_len d),
      raw_history_ctx_len = JInt (data_history_ctx_len d),
      raw_moderator_name = of_optional JStr (moderator_name d),
      raw_moderator_attributes = of_optional of_str_list (moderator_attributes d),
      raw_moderator_instructions = of_optional JStr (moderator_instructions d)\<rparr>"

text \<open>\<open>{f.name for f in dataclasses.fields(LLMConvData) if f.init}\<close>.\<close>

definition field_set :: "string set" where
  "field_set =
     {''context'', ''user_names'', ''user_attributes'', ''user_instructions'',
      ''turn_manager_type'', ''turn_manager_config'', ''conv_len'', ''history_ctx_len'',
      ''moderator_name'', ''moderator_attributes'', ''moderator_instructions''}"

text \<open>An argument that may be left out: the value given, or the default.\<close>

definition arg_or :: "'a \<Rightarrow> 'a option \<Rightarrow> 'a" where
  "arg_or dflt arg = (case arg of None \<Rightarrow> dflt | Some v \<Rightarrow> v)"

text \<open>
  \<open>LLMConvData(**kwargs)\<close>, the generated \<open>__init__\<close> called with a dict of keyword
  arguments: a keyword that is not a parameter is a \<open>TypeError\<close>, and so is a
  missing argument without default; then the fields are set as given and
  \<open>__post_init__\<close> runs.
\<close>

definition LLMConvData_kwargs :: "(string \<times> json) list \<Rightarrow> error + LLMConvData_raw" where
  "LLMConvData_kwargs kw =
     (case filter (\<lambda>(k, v). k \<notin> field_set) kw of
        (k, v) # _ \<Rightarrow> Inl (TypeError (''got an unexpected keyword argument '' @ k))
      | [] \<Rightarrow>
          (case (map_of kw ''context'', map_of kw ''user_names'', map_of kw ''user_attributes'',
                 map_of kw ''user_instructions'', map_of kw ''turn_manager_type'') of
             (Some ctx, Some names, Some attrs, Some instr, Some tm_type) \<Rightarrow>
               raw_post_init
                 \<lparr>raw_context = ctx, raw_user_names = names, raw_user_attributes = attrs,
                  raw_user_instructions = instr, raw_turn_manager_type = tm_type,
                  raw_turn_manager_config = arg_or (JObj []) (map_of kw ''turn_manager_config''),
                  raw_conv_len = arg_or (JInt 4) (map_of kw ''conv_len''),
                  raw_history_ctx_len = arg_or (JInt 4) (map_of kw ''history_ctx_len''),
                  raw_moderator_name = arg_or JNull (map_of kw ''moderator_name''),
                  raw_moderator_attributes = arg_or JNull (map_of kw ''moderator_attributes''),
                  raw_moderator_instructions = arg_or JNull (map_of kw ''moderator_instructions'')\<rparr>
           | _ \<Rightarrow> Inl (TypeError ''missing required positional arguments'')))"

text \<open>
  The file system: the JSON document stored under each path.  The text that
  \<open>json.dump\<close> writes and \<open>json.load\<close> parses is not modelled.
\<close>

type_synonym files = "string \<rightharpoonup> json"

definition from_json_file :: "string \<Rightarrow> files \<Rightarrow> error + LLMConvData_raw" where
  "from_json_file input_file_path fs =
     (case fs input_file_path of
        None \<Rightarrow> Inl (FileNotFoundError input_file_path)
      | Some (JObj kvs) \<Rightarrow>
          (let data_dict = dict_of kvs;
               filtered_arg_dict = filter (\<lambda>(k, v). k \<in> field_set) data_dict
           in LLMConvData_kwargs filtered_arg_dict)
      | Some _ \<Rightarrow> Inl (AttributeError ''items''))"

text \<open>\<open>dataclasses.asdict\<close>: the fields in declaration order, each value copied.\<close>

definition asdict :: "LLMConvData_raw \<Rightarrow> (string \<times> json) list" where
  "asdict self =
     [(''context'', raw_context self),
      (''user_names'', raw_user_names self),
      (''user_attributes'', raw_user_attributes self),
      (''user_instructions'', raw_user_instructions self),
      (''turn_manager_type'', raw_turn_manager_type self),
      (''turn_manager_config'', raw_turn_manager_config self),
      (''conv_len'', raw_conv_len self),
      (''history_ctx_len'', raw_history_ctx_len self),
      (''moderator_name'', raw_moderator_name self),
      (''moderator_attributes'', raw_moderator_attributes self),
      (''moderator_instructions'', raw_moderator_instructions self)]"

definition to_json_file :: "LLMConvData_raw \<Rightarrow> string \<Rightarrow> files \<Rightarrow> files" where
  "to_json_file self output_path fs = fs(output_path \<mapsto> JObj (asdict self))"

text \<open>
  Python's \<open>==\<close> on two values that share no object, as an object and the one read
  back from its file.  Booleans, integers and floats compare by their numeric
  value; \<open>nan\<close> is equal to nothing, itself included; lists compare element by
  element and dicts key by key, whatever the order of their items.
\<close>

definition float_eq :: "pyfloat \<Rightarrow> pyfloat \<Rightarrow> bool" where
  "float_eq a b = (a \<noteq> NaN \<and> a = b)"

definition number_of :: "json \<Rightarrow> pyfloat option" where
  "number_of x =
     (case x of
        JBool b \<Rightarrow> Some (Finite (if b then 1 else 0))
      | JInt i \<Rightarrow> Some (Finite (of_int i))
      | JFloat f \<Rightarrow> Some f
      | _ \<Rightarrow> None)"

definition num_eq :: "pyfloat \<Rightarrow> json \<Rightarrow> bool" where
  "num_eq a y = (case number_of y of None \<Rightarrow> False | Some b \<Rightarrow> float_eq a b)"

fun py_eq :: "json \<Rightarrow> json \<Rightarrow> bool"
  and py_eq_list :: "json list \<Rightarrow> json list \<Rightarrow> bool"
  and py_eq_items :: "(string \<times> json) list \<Rightarrow> (string \<times> json) list \<Rightarrow> bool" where
  "py_eq JNull y = (y = JNull)"
| "py_eq (JBool b) y = num_eq (Finite (if b then 1 else 0)) y"
| "py_eq (JInt i) y = num_eq (Finite (of_int i)) y"
| "py_eq (JFloat f) y = num_eq f y"
| "py_eq (JStr s) y = (y = JStr s)"
| "py_eq (JArr xs) y = (case y of JArr ys \<Rightarrow> py_eq_list xs ys | _ \<Rightarrow> False)"
| "py_eq (JObj kvs) y =
     (case y of JObj kvs' \<Rightarrow> length kvs = length kvs' \<and> py_eq_items kvs kvs' | _ \<Rightarrow> False)"
| "py_eq_list [] ys = (ys = [])"
| "py_eq_list (x # xs) ys =
     (case ys of [] \<Rightarrow> False | y # ys' \<Rightarrow> py_eq x y \<and> py_eq_list xs ys')"
| "py_eq_items [] other = True"
| "py_eq_items ((k, v) # rest) other =
     ((case map_of other k of None \<Rightarrow> False | Some v' \<Rightarrow> py_eq v v') \<and> py_eq_items rest other)"

text \<open>The generated \<open>__eq__\<close>: the tuples of the fields are compared.\<close>

definition LLMConvData_eq :: "LLMConvData_raw \<Rightarrow> LLMConvData_raw \<Rightarrow> bool" where
  "LLMConvData_eq a b =
     py_eq_list (map snd (asdict a)) (map snd (asdict b))"

text \<open>A value in which no \<open>nan\<close> occurs and every dict has distinct keys.\<close>

fun nan_free :: "json \<Rightarrow> bool"
  and nan_free_list :: "json list \<Rightarrow> bool"
  and nan_free_items :: "(string \<times> json) list \<Rightarrow> bool" where
  "nan_free JNull = True"
| "nan_free (JBool b) = True"
| "nan_free (JInt i) = True"
| "nan_free (JFloat f) = (f \<noteq> NaN)"
| "nan_free (JStr s) = True"
| "nan_free (JArr xs) = nan_free_list xs"
| "nan_free (JObj kvs) = (distinct (map fst kvs) \<and> nan_free_items kvs)"
| "nan_free_list [] = True"
| "nan_free_list (x # xs) = (nan_free x \<and> nan_free_list xs)"
| "nan_free_items [] = True"
| "nan_free_items ((k, v) # rest) = (nan_free v \<and> nan_free_items rest)"

text \<open>An object in whose fields no \<open>nan\<close> occurs.\<close>

definition nan_free_obj :: "LLMConvData_raw \<Rightarrow> bool" where
  "nan_free_obj r = nan_free_list (map snd (asdict r))"

text \<open>
  \<open>LLMConvGenerator\<close>.  \<open>turn_manager.turn_manager_factory\<close> is defined in another
  module and is the parameter \<open>factory\<close>; it may raise.
\<close>

record ('w, 'tm) LLMConvGenerator =
  user_model :: "'w LlamaModel"
  moderator_model :: "'w LlamaModel option"
  data :: "LLMConvData"
  next_turn_manager :: 'tm

definition LLMConvGenerator_init ::
  "(string \<Rightarrow> string list \<Rightarrow> error + 'tm) \<Rightarrow> LLMConvData \<Rightarrow> 'w LlamaModel option
     \<Rightarrow> 'w LlamaModel option \<Rightarrow> error + ('w, 'tm) LLMConvGenerator" where
  "LLMConvGenerator_init factory d um mm =
     (case um of
        None \<Rightarrow> Inl (AssertionError ''User model cannot be None'')
      | Some u \<Rightarrow>
          if mm = None \<and> moderator_name d \<noteq> None
          then Inl (AssertionError ''Moderator agent was not given a model.'')
          else (case factory (turn_manager_type d) (user_names d) of
                  Inl e \<Rightarrow> Inl e
                | Inr tm \<Rightarrow>
                    Inr \<lparr>user_model = u, moderator_model = mm, data = d, next_turn_manager = tm\<rparr>))"

text \<open>
  The arguments with which \<open>produce_conversation\<close> calls \<open>conversation.Conversation\<close>,
  a class of another module.
\<close>

record ('w, 'tm) Conversation_args =
  arg_turn_manager :: 'tm
  arg_users :: "'w LlmActor list"
  arg_moderator :: "'w LlmActor option"
  arg_history_context_len :: int
  arg_conv_len :: int

text \<open>
  The loop over \<open>range(len(self.data.user_names))\<close>; \<open>user_attributes[i]\<close> raises
  \<open>IndexError\<close> when that list is shorter.
\<close>

fun user_loop ::
  "('w, 'tm) LLMConvGenerator \<Rightarrow> nat list \<Rightarrow> 'w LlmActor list \<Rightarrow> error + 'w LlmActor list" where
  "user_loop self [] user_list = Inr user_list"
| "user_loop self (i # rest) user_list =
     (if i < length (user_attributes (data self))
      then user_loop self rest
             (user_list @
                [LlmActor_init LLMUser (user_model self) (user_names (data self) ! i)
                   (user_attributes (data self) ! i) (data_context (data self))
                   (user_instructions (data self))])
      else Inl (IndexError ''list index out of range''))"

definition produce_conversation ::
  "('w, 'tm) LLMConvGenerator \<Rightarrow> error + ('w, 'tm) Conversation_args" where
  "produce_conversation self =
     (case user_loop self [0..<length (user_names (data self))] [] of
        Inl e \<Rightarrow> Inl e
      | Inr user_list \<Rightarrow>
          (let moderator =
                 (case (moderator_name (data self), moderator_model self,
                        moderator_attributes (data self), moderator_instructions (data self)) of
                    (Some n, Some m, Some attrs, Some instr) \<Rightarrow>
                      Some (LlmActor_init LLMUser m n attrs (data_context (data self)) instr)
                  | _ \<Rightarrow> None)
           in Inr \<lparr>arg_turn_manager = next_turn_manager self, arg_users = user_list,
                   arg_moderator = moderator,
                   arg_history_context_len = data_history_ctx_len (data self),
                   arg_conv_len = conv_len (data self)\<rparr>))"

section \<open>Concrete objects for the examples\<close>

definition demo_format :: "string \<Rightarrow> string \<Rightarrow> string" where
  "demo_format username message = username @ '': '' @ message"

text \<open>A model that answers its \<open>n\<close>-th call with \<open>n\<close> plus signs.\<close>

definition demo_model :: "nat LlamaModel" where
  "demo_model messages stop_list n = (Inr (replicate (Suc n) CHR ''+''), Suc n)"

definition demo_annotator :: "nat LlmActor" where
  "demo_annotator =
     LlmActor_init LLMAnnotator demo_model ''judge'' [''strict'', ''fair''] ''a forum''
       ''rate the last message''"

definition demo_data :: conv_data where
  "demo_data = \<lparr>conv_id = ''c1'', logs = [(''alice'', ''hi''), (''bob'', ''yo''), (''alice'', ''bye'')]\<rparr>"

definition demo_world :: "nat world" where
  "demo_world = \<lparr>model_state = 0, prompt_log = [], stdout = []\<rparr>"

text \<open>A configuration that names a moderator and gives neither its attributes nor its instructions.\<close>

definition demo_config :: "LLMConvData" where
  "demo_config =
     \<lparr>data_context = ''a forum'', user_names = [''alice'', ''bob''],
      user_attributes = [[''kind''], [''blunt'', ''young'']], user_instructions = ''chat'',
      turn_manager_type = ''round_robin'', turn_manager_config = [(''weight'', Finite (1 / 2))],
      conv_len = 4, data_history_ctx_len = 2, moderator_name = Some ''mod'',
      moderator_attributes = None, moderator_instructions = None\<rparr>"

definition demo_generator :: "(nat, string list) LLMConvGenerator" where
  "demo_generator =
     \<lparr>user_model = demo_model, moderator_model = Some demo_model, data = demo_config,
      next_turn_manager = [''alice'', ''bob'']\<rparr>"

text \<open>The same configuration with a weight that is \<open>nan\<close>.\<close>

definition demo_nan_config :: "LLMConvData" where
  "demo_nan_config = demo_config\<lparr>turn_manager_config := [(''weight'', NaN)]\<rparr>"

text \<open>A stand-in for the turn manager factory: the manager is the roster.\<close>

definition demo_factory :: "string \<Rightarrow> string list \<Rightarrow> error + string list" where
  "demo_factory tm_type names = Inr names"

text \<open>A run over the example transcript with history length \<open>k\<close>.\<close>

definition demo_run :: "int \<Rightarrow> nat annotation_run" where
  "demo_run k =
     begin_annotation demo_format id (AnnotationConv_init demo_annotator demo_data k) False demo_world"

section \<open>Properties of the history window and of the annotation loop\<close>


lemma length_last_n: "length (last_n n xs) = min n (length xs)"
  by (auto simp: last_n_def)

lemma last_n_nil: "last_n n [] = []"
  by (simp add: last_n_def)

lemma deque_append_maxlen: "maxlen (deque_append d x) = maxlen d"
  by (simp add: deque_append_def Let_def)

lemma tl_drop_snoc:
  assumes "n < length es"
  shows "tl (drop n es @ [x]) = drop (Suc n) (es @ [x])"
proof -
  from assms have "drop n es \<noteq> []" by simp
  then have "tl (drop n es @ [x]) = tl (drop n es) @ [x]" by simp
  also have "tl (drop n es) = drop (Suc n) es" by (simp add: drop_Suc tl_drop)
  finally show ?thesis using assms by simp
qed

lemma deque_append_last_n:
  assumes "items d = last_n (maxlen d) es"
  shows "items (deque_append d x) = last_n (maxlen d) (es @ [x])"
proof (cases "maxlen d \<le> length es")
  case True
  note le = this
  have full: "maxlen d < length (items d @ [x])"
    using assms le by (simp add: length_last_n)
  show ?thesis
  proof (cases "maxlen d = 0")
    case True
    then show ?thesis using assms by (simp add: deque_append_def Let_def last_n_def)
  next
    case False
    then have lt: "length es - maxlen d < length es" using le by simp
    have "Suc (length es) - maxlen d = Suc (length es - maxlen d)"
      using le by simp
    then show ?thesis
      using assms full tl_drop_snoc [OF lt, of x]
      by (simp add: deque_append_def Let_def last_n_def)
  qed
next
  case False
  then show ?thesis
    using assms by (simp add: deque_append_def Let_def last_n_def)
qed


lemma speak_eq:
  "speak a h w =
     (fst (model a [system_prompt a, message_prompt a h] [''User''] (model_state w)),
      a,
      w\<lparr>model_state := snd (model a [system_prompt a, message_prompt a h] [''User''] (model_state w)),
        prompt_log := prompt_log w @ [([system_prompt a, message_prompt a h], [''User''])]\<rparr>)"
  by (simp add: speak_def prompt_def Let_def split: prod.splits)


lemma annotator_update_id: "(s :: 'w AnnotationConv)\<lparr>annotator := annotator s\<rparr> = s"
  by (cases s) simp

lemma loop_Cons:
  "annotation_loop fmt fill v ((u, m) # rest) st =
     (let ctx = deque_append (ctx_history st) (fmt u m);
          a = annotator (self_obj st);
          p = [system_prompt a, message_prompt a (items ctx)];
          res = model a p [''User''] (model_state (loop_world st));
          w = (loop_world st)\<lparr>model_state := snd res,
                prompt_log := prompt_log (loop_world st) @ [(p, [''User''])]\<rparr>
      in case fst res of
           Inl e \<Rightarrow>
             (Some e, \<lparr>self_obj = self_obj st, ctx_history = ctx,
                       speak_calls = speak_calls st @ [(items ctx, fst res)],
                       loop_world = w\<rparr>)
         | Inr ann \<Rightarrow>
             annotation_loop fmt fill v rest
               \<lparr>self_obj = (self_obj st)\<lparr>annotation_logs := annotation_logs (self_obj st) @ [(m, ann)]\<rparr>,
                ctx_history = ctx,
                speak_calls = speak_calls st @ [(items ctx, fst res)],
                loop_world = (if v then w\<lparr>stdout := stdout w @ [fill (fmt u m), ann]\<rparr> else w)\<rparr>)"
  by (simp add: speak_eq Let_def annotator_update_id split: sum.splits)


lemma loop_frame:
  "annotation_loop fmt fill v xs st = (e, st') \<Longrightarrow>
     annotator (self_obj st') = annotator (self_obj st) \<and>
     history_ctx_len (self_obj st') = history_ctx_len (self_obj st) \<and>
     conv_data_dict (self_obj st') = conv_data_dict (self_obj st) \<and>
     maxlen (ctx_history st') = maxlen (ctx_history st)"
proof (induction xs arbitrary: st)
  case Nil
  then show ?case by simp
next
  case (Cons x xs)
  obtain u m where x: "x = (u, m)" by (cases x)
  define ctx where "ctx = deque_append (ctx_history st) (fmt u m)"
  define r where "r = fst (model (annotator (self_obj st))
      [system_prompt (annotator (self_obj st)), message_prompt (annotator (self_obj st)) (items ctx)]
      [''User''] (model_state (loop_world st)))"
  show ?case
  proof (cases r)
    case (Inl err)
    then show ?thesis
      using Cons.prems
      by (auto simp: x loop_Cons Let_def ctx_def r_def deque_append_maxlen
               simp del: annotation_loop.simps)
  next
    case (Inr ann)
    then obtain st2 where run: "annotation_loop fmt fill v xs st2 = (e, st')"
      and st2: "annotator (self_obj st2) = annotator (self_obj st)"
        "history_ctx_len (self_obj st2) = history_ctx_len (self_obj st)"
        "conv_data_dict (self_obj st2) = conv_data_dict (self_obj st)"
        "maxlen (ctx_history st2) = maxlen (ctx_history st)"
      using Cons.prems
      by (simp add: x loop_Cons Let_def ctx_def r_def deque_append_maxlen
               del: annotation_loop.simps)
    from Cons.IH [OF run] st2 show ?thesis by simp
  qed
qed


lemma loop_calls:
  "annotation_loop fmt fill v xs st = (e, st') \<Longrightarrow>
   items (ctx_history st) = last_n k es \<Longrightarrow> maxlen (ctx_history st) = k \<Longrightarrow>
   \<exists>C. speak_calls st' = speak_calls st @ C \<and> length C \<le> length xs \<and>
       (e = None \<longrightarrow> length C = length xs) \<and>
       (\<forall>i<length C. fst (C ! i) = last_n k (es @ take (Suc i) (map (\<lambda>(u, m). fmt u m) xs))) \<and>
       items (ctx_history st') = last_n k (es @ take (length C) (map (\<lambda>(u, m). fmt u m) xs))"
proof (induction xs arbitrary: st es)
  case Nil
  then show ?case by simp
next
  case (Cons x xs)
  obtain u m where x: "x = (u, m)" by (cases x)
  define ctx where "ctx = deque_append (ctx_history st) (fmt u m)"
  have ctx_items: "items ctx = last_n k (es @ [fmt u m])"
    unfolding ctx_def using deque_append_last_n [of "ctx_history st" es "fmt u m"] Cons.prems(2,3)
    by simp
  have ctx_max: "maxlen ctx = k"
    unfolding ctx_def using Cons.prems(3) by (simp add: deque_append_maxlen)
  define r where "r = fst (model (annotator (self_obj st))
      [system_prompt (annotator (self_obj st)), message_prompt (annotator (self_obj st)) (items ctx)]
      [''User''] (model_state (loop_world st)))"
  show ?case
  proof (cases r)
    case (Inl err)
    then have "speak_calls st' = speak_calls st @ [(items ctx, r)]" "ctx_history st' = ctx" "e = Some err"
      using Cons.prems(1)
      by (auto simp: x loop_Cons Let_def ctx_def r_def simp del: annotation_loop.simps)
    then show ?thesis
      using ctx_items by (intro exI [of _ "[(items ctx, r)]"]) (simp add: x)
  next
    case (Inr ann)
    then obtain st2 where run: "annotation_loop fmt fill v xs st2 = (e, st')"
      and st2: "ctx_history st2 = ctx" "speak_calls st2 = speak_calls st @ [(items ctx, r)]"
      using Cons.prems(1)
      by (simp add: x loop_Cons Let_def ctx_def r_def del: annotation_loop.simps)
    have "items (ctx_history st2) = last_n k ((es @ [fmt u m]))" "maxlen (ctx_history st2) = k"
      using ctx_items ctx_max st2 by simp_all
    from Cons.IH [OF run this] obtain C where
      C: "speak_calls st' = speak_calls st2 @ C" "length C \<le> length xs"
         "e = None \<longrightarrow> length C = length xs"
         "\<forall>i<length C. fst (C ! i) = last_n k ((es @ [fmt u m]) @ take (Suc i) (map (\<lambda>(u, m). fmt u m) xs))"
         "items (ctx_history st') = last_n k ((es @ [fmt u m]) @ take (length C) (map (\<lambda>(u, m). fmt u m) xs))"
      by blast
    let ?C = "(items ctx, r) # C"
    have 1: "speak_calls st' = speak_calls st @ ?C"
      using C(1) st2 by simp
    have 2: "\<forall>i<length ?C. fst (?C ! i) = last_n k (es @ take (Suc i) (map (\<lambda>(u, m). fmt u m) (x # xs)))"
    proof (intro allI impI)
      fix i assume "i < length ?C"
      then show "fst (?C ! i) = last_n k (es @ take (Suc i) (map (\<lambda>(u, m). fmt u m) (x # xs)))"
        using C(4) ctx_items by (cases i) (simp_all add: x)
    qed
    have 3: "items (ctx_history st') = last_n k (es @ take (length ?C) (map (\<lambda>(u, m). fmt u m) (x # xs)))"
      using C(5) by (simp add: x)
    show ?thesis
      using 1 2 3 C(2,3) by (intro exI [of _ ?C]) simp
  qed
qed

lemma loop_logs:
  "annotation_loop fmt fill v xs st = (None, st') \<Longrightarrow>
   \<exists>L C. annotation_logs (self_obj st') = annotation_logs (self_obj st) @ L \<and>
         speak_calls st' = speak_calls st @ C \<and>
         map (\<lambda>(m, a). (m, Inr a)) L = zip (map snd xs) (map snd C) \<and>
         length L = length xs \<and> length C = length xs"
proof (induction xs arbitrary: st)
  case Nil
  then show ?case by simp
next
  case (Cons x xs)
  obtain u m where x: "x = (u, m)" by (cases x)
  define ctx where "ctx = deque_append (ctx_history st) (fmt u m)"
  define r where "r = fst (model (annotator (self_obj st))
      [system_prompt (annotator (self_obj st)), message_prompt (annotator (self_obj st)) (items ctx)]
      [''User''] (model_state (loop_world st)))"
  show ?case
  proof (cases r)
    case (Inl err)
    then show ?thesis
      using Cons.prems by (simp add: x loop_Cons Let_def ctx_def r_def del: annotation_loop.simps)
  next
    case (Inr ann)
    then obtain st2 where run: "annotation_loop fmt fill v xs st2 = (None, st')"
      and st2: "annotation_logs (self_obj st2) = annotation_logs (self_obj st) @ [(m, ann)]"
               "speak_calls st2 = speak_calls st @ [(items ctx, r)]"
      using Cons.prems
      by (simp add: x loop_Cons Let_def ctx_def r_def del: annotation_loop.simps)
    from Cons.IH [OF run] obtain L C where
      LC: "annotation_logs (self_obj st') = annotation_logs (self_obj st2) @ L"
          "speak_calls st' = speak_calls st2 @ C"
          "map (\<lambda>(m, a). (m, Inr a)) L = zip (map snd xs) (map snd C)"
          "length L = length xs" "length C = length xs"
      by blast
    show ?thesis
      using LC Inr st2
      by (intro exI [of _ "(m, ann) # L"] exI [of _ "(items ctx, r) # C"]) (simp add: x)
  qed
qed


lemma last_n_min: "last_n (min k (length xs)) xs = last_n k xs"
  by (simp add: last_n_def min_def)

lemma deque_new_Inr:
  "deque_new n = Inr d \<Longrightarrow> 0 \<le> n \<and> d = \<lparr>maxlen = nat n, items = []\<rparr>"
  by (auto simp: deque_new_def split: if_splits)

lemma begin_refused:
  "(deque_new (history_ctx_len self) :: error + string deque) = Inl e \<Longrightarrow>
   begin_annotation fmt fill self v w =
     \<lparr>raised = Some e, conv = self, calls = [], final_window = [], world_after = w\<rparr>"
  by (simp add: begin_annotation_def)

lemma begin_started:
  "(deque_new (history_ctx_len self) :: error + string deque) = Inr d \<Longrightarrow>
   begin_annotation fmt fill self v w =
     (let (e, st) = annotation_loop fmt fill v (logs (conv_data_dict self))
                \<lparr>self_obj = self,
                 ctx_history = \<lparr>maxlen = nat (history_ctx_len self), items = []\<rparr>,
                 speak_calls = [], loop_world = w\<rparr>
      in \<lparr>raised = e, conv = self_obj st, calls = speak_calls st,
          final_window = items (ctx_history st), world_after = loop_world st\<rparr>)"
  using deque_new_Inr [of "history_ctx_len self" d] by (simp add: begin_annotation_def)

lemma begin_raised_None:
  assumes "raised (begin_annotation fmt fill self v w) = None"
  shows "\<exists>d. (deque_new (history_ctx_len self) :: error + string deque) = Inr d"
proof (cases "deque_new (history_ctx_len self) :: error + string deque")
  case (Inl e)
  from begin_refused [OF this] assms show ?thesis by simp
next
  case (Inr d)
  then show ?thesis by blast
qed

lemma begin_frame:
  "annotator (conv (begin_annotation fmt fill self v w)) = annotator self \<and>
   history_ctx_len (conv (begin_annotation fmt fill self v w)) = history_ctx_len self \<and>
   conv_data_dict (conv (begin_annotation fmt fill self v w)) = conv_data_dict self"
proof (cases "deque_new (history_ctx_len self) :: error + string deque")
  case (Inl e)
  then show ?thesis by (simp add: begin_refused)
next
  case (Inr d)
  obtain e st where run: "annotation_loop fmt fill v (logs (conv_data_dict self))
                \<lparr>self_obj = self,
                 ctx_history = \<lparr>maxlen = nat (history_ctx_len self), items = []\<rparr>,
                 speak_calls = [], loop_world = w\<rparr> = (e, st)"
    by (cases "annotation_loop fmt fill v (logs (conv_data_dict self))
                \<lparr>self_obj = self,
                 ctx_history = \<lparr>maxlen = nat (history_ctx_len self), items = []\<rparr>,
                 speak_calls = [], loop_world = w\<rparr>")
  from loop_frame [OF run] run show ?thesis
    by (simp add: begin_started [OF Inr])
qed

lemma begin_calls:
  assumes "0 \<le> history_ctx_len self" and r_def: "r = begin_annotation fmt fill self v w"
  shows "length (calls r) \<le> length (entries fmt self) \<and>
         (raised r = None \<longrightarrow> length (calls r) = length (entries fmt self)) \<and>
         (\<forall>i<length (calls r).
             fst (calls r ! i) = last_n (nat (history_ctx_len self)) (take (Suc i) (entries fmt self))) \<and>
         final_window r = last_n (nat (history_ctx_len self)) (take (length (calls r)) (entries fmt self))"
proof (cases "deque_new (history_ctx_len self) :: error + string deque")
  case (Inl e)
  from begin_refused [OF this] show ?thesis
    by (simp add: r_def last_n_nil)
next
  case (Inr d)
  let ?st0 = "\<lparr>self_obj = self,
                 ctx_history = \<lparr>maxlen = nat (history_ctx_len self), items = []\<rparr>,
                 speak_calls = [], loop_world = w\<rparr>"
  obtain e st where run: "annotation_loop fmt fill v (logs (conv_data_dict self)) ?st0 = (e, st)"
    by (cases "annotation_loop fmt fill v (logs (conv_data_dict self)) ?st0")
  have r: "raised r = e" "calls r = speak_calls st" "final_window r = items (ctx_history st)"
    using run by (simp_all add: r_def begin_started [OF Inr])
  have "items (ctx_history ?st0) = last_n (nat (history_ctx_len self)) []"
       "maxlen (ctx_history ?st0) = nat (history_ctx_len self)"
    by (simp_all add: last_n_nil)
  from loop_calls [OF run this] show ?thesis
    by (simp add: r entries_def)
qed

lemma begin_logs:
  assumes r_def: "r = begin_annotation fmt fill self v w" and "raised r = None"
  shows "\<exists>L. annotation_logs (conv r) = annotation_logs self @ L \<and>
             length L = length (logs (conv_data_dict self)) \<and>
             length (calls r) = length (logs (conv_data_dict self)) \<and>
             map (\<lambda>(m, a). (m, Inr a)) L = zip (map snd (logs (conv_data_dict self))) (map snd (calls r))"
proof -
  let ?st0 = "\<lparr>self_obj = self,
                 ctx_history = \<lparr>maxlen = nat (history_ctx_len self), items = []\<rparr>,
                 speak_calls = [], loop_world = w\<rparr>"
  from assms obtain d where d: "(deque_new (history_ctx_len self) :: error + string deque) = Inr d"
    using begin_raised_None by blast
  obtain e st where run: "annotation_loop fmt fill v (logs (conv_data_dict self)) ?st0 = (e, st)"
    by (cases "annotation_loop fmt fill v (logs (conv_data_dict self)) ?st0")
  have r: "raised r = e" "calls r = speak_calls st" "conv r = self_obj st"
    using run by (simp_all add: r_def begin_started [OF d])
  with assms(2) have "e = None" by simp
  with run have "annotation_loop fmt fill v (logs (conv_data_dict self)) ?st0 = (None, st)" by simp
  from loop_logs [OF this] show ?thesis
    by (auto simp: r)
qed

lemma last_n_take_min:
  "i \<le> length xs \<Longrightarrow> last_n (min k i) (take i xs) = last_n k (take i xs)"
  using last_n_min [of k "take i xs"] by (simp add: min_absorb2)

text \<open>
  Claim C1.  For a history length \<open>k \<ge> 0\<close>, every window that \<open>begin_annotation\<close>
  hands to \<open>speak\<close> holds at most \<open>k\<close> entries, and the window of the \<open>i\<close>-th call
  (counted from 1) is the last \<open>min k i\<close> of the first \<open>i\<close> formatted transcript
  entries, in transcript order.  The deque changes only when an entry is appended,
  right before a call, so these windows and the final one are all its contents.
\<close>

theorem window_bounded:
  assumes "0 \<le> history_ctx_len self"
    and "r = begin_annotation fmt fill self verbose w"
    and "k = nat (history_ctx_len self)"
  shows "length (calls r) \<le> length (entries fmt self) \<and>
         (raised r = None \<longrightarrow> length (calls r) = length (entries fmt self)) \<and>
         (\<forall>i. 1 \<le> i \<and> i \<le> length (calls r) \<longrightarrow>
            length (fst (calls r ! (i - 1))) \<le> k \<and>
            fst (calls r ! (i - 1)) = last_n (min k i) (take i (entries fmt self))) \<and>
         length (final_window r) \<le> k"
proof -
  note bc = begin_calls [OF assms(1,2)]
  have len: "length (calls r) \<le> length (entries fmt self)" using bc by simp
  have win: "length (fst (calls r ! (i - 1))) \<le> k \<and>
            fst (calls r ! (i - 1)) = last_n (min k i) (take i (entries fmt self))"
    if "1 \<le> i" "i \<le> length (calls r)" for i
  proof -
    from that have "i - 1 < length (calls r)" "Suc (i - 1) = i" by simp_all
    with bc have eq: "fst (calls r ! (i - 1)) = last_n k (take i (entries fmt self))"
      by (metis assms(3))
    have "i \<le> length (entries fmt self)" using that len by simp
    then show ?thesis
      using eq by (simp add: last_n_take_min length_last_n)
  qed
  have "length (final_window r) \<le> k"
    using bc by (simp add: assms(3) length_last_n)
  with bc len win show ?thesis by blast
qed

text \<open>
  Claim C2.  On a fresh \<open>AnnotationConv\<close>, a run of \<open>begin_annotation\<close> that
  completes leaves one log entry per transcript message, in transcript order; the
  \<open>i\<close>-th entry pairs the \<open>i\<close>-th raw message with what the \<open>i\<close>-th call of
  \<open>speak\<close> returned.
\<close>

theorem one_entry_per_message:
  assumes "self = AnnotationConv_init a d k"
    and "r = begin_annotation fmt fill self verbose w"
    and "raised r = None"
  shows "length (annotation_logs (conv r)) = length (logs d) \<and>
         length (calls r) = length (logs d) \<and>
         map fst (annotation_logs (conv r)) = map snd (logs d) \<and>
         map (\<lambda>(m, res). (m, Inr res)) (annotation_logs (conv r)) = zip (map snd (logs d)) (map snd (calls r)) \<and>
         (\<forall>i<length (logs d).
            fst (annotation_logs (conv r) ! i) = snd (logs d ! i) \<and>
            snd (calls r ! i) = Inr (snd (annotation_logs (conv r) ! i)))"
proof -
  have d: "conv_data_dict self = d" "annotation_logs self = []"
    using assms(1) by (simp_all add: AnnotationConv_init_def)
  from begin_logs [OF assms(2,3)] obtain L where
    L: "annotation_logs (conv r) = L" "length L = length (logs d)"
       "length (calls r) = length (logs d)"
       "map (\<lambda>(m, res). (m, Inr res)) L = zip (map snd (logs d)) (map snd (calls r))"
    by (auto simp: d)
  have "map fst (map (\<lambda>(m, res). (m, Inr res :: error + string)) L) = map fst L"
    by (simp add: case_prod_beta o_def)
  then have fsts: "map fst L = map snd (logs d)"
    using L(3,4) by (simp add: L(4))
  have pt: "fst (L ! i) = snd (logs d ! i) \<and> snd (calls r ! i) = Inr (snd (L ! i))"
    if "i < length (logs d)" for i
  proof -
    have "map (\<lambda>(m, res). (m, Inr res)) L ! i = zip (map snd (logs d)) (map snd (calls r)) ! i"
      using L(4) by simp
    then show ?thesis
      using that L(2,3) by (simp add: case_prod_beta)
  qed
  show ?thesis
    using L fsts pt by simp
qed



lemmas demo_defs =
  demo_run_def begin_annotation_def deque_new_def ssize_max_def deque_append_def AnnotationConv_init_def
  demo_data_def demo_world_def demo_format_def demo_annotator_def LlmActor_init_def demo_model_def
  speak_def prompt_def Let_def system_prompt_def message_prompt_def newline_def

lemma demo_entries:
  "entries demo_format (AnnotationConv_init demo_annotator demo_data k) =
     [''alice: hi'', ''bob: yo'', ''alice: bye'']"
  by (simp add: entries_def AnnotationConv_init_def demo_data_def demo_format_def)

theorem window_bounded_witness:
  "0 \<le> history_ctx_len (AnnotationConv_init demo_annotator demo_data 2) \<and>
   raised (demo_run 2) = None \<and>
   length (calls (demo_run 2)) = 3 \<and>
   fst (calls (demo_run 2) ! 0) = [''alice: hi''] \<and>
   fst (calls (demo_run 2) ! 1) = [''alice: hi'', ''bob: yo''] \<and>
   fst (calls (demo_run 2) ! 2) = [''bob: yo'', ''alice: bye''] \<and>
   length (final_window (demo_run 2)) \<le> 2"
proof -
  let ?self = "AnnotationConv_init demo_annotator demo_data 2 :: nat AnnotationConv"
  have h: "0 \<le> history_ctx_len ?self" by (simp add: AnnotationConv_init_def)
  have k: "(2::nat) = nat (history_ctx_len ?self)" by (simp add: AnnotationConv_init_def)
  have r: "demo_run 2 = begin_annotation demo_format id ?self False demo_world"
    by (simp add: demo_run_def)
  note t = window_bounded [OF h r k]
  have ok: "raised (demo_run 2) = None" by (simp add: demo_defs)
  with t have len: "length (calls (demo_run 2)) = 3" by (simp add: demo_entries)
  from t have win: "fst (calls (demo_run 2) ! (i - 1)) = last_n (min 2 i) (take i (entries demo_format ?self))"
    if "1 \<le> i" "i \<le> length (calls (demo_run 2))" for i
    using that by blast
  from win [of 1] len have w1: "fst (calls (demo_run 2) ! 0) = [''alice: hi'']"
    by (simp add: demo_entries last_n_def)
  from win [of 2] len have w2: "fst (calls (demo_run 2) ! 1) = [''alice: hi'', ''bob: yo'']"
    by (simp add: demo_entries last_n_def)
  from win [of 3] len have w3: "fst (calls (demo_run 2) ! 2) = [''bob: yo'', ''alice: bye'']"
    by (simp add: demo_entries last_n_def)
  from t have fin: "length (final_window (demo_run 2)) \<le> 2" by simp
  show ?thesis
    using h ok len w1 w2 w3 fin by simp
qed

theorem one_entry_per_message_witness:
  "raised (demo_run 2) = None \<and>
   annotation_logs (conv (demo_run 2)) = [(''hi'', ''+''), (''yo'', ''++''), (''bye'', ''+++'')] \<and>
   map snd (calls (demo_run 2)) = [Inr ''+'', Inr ''++'', Inr ''+++'']"
proof -
  have ok: "raised (demo_run 2) = None" by (simp add: demo_defs)
  note t = one_entry_per_message [OF refl demo_run_def ok]
  have c: "map snd (calls (demo_run 2)) = [Inr ''+'', Inr ''++'', Inr ''+++'']"
    by (simp add: demo_defs)
  from t have "map (\<lambda>(m, res). (m, Inr res :: error + string)) (annotation_logs (conv (demo_run 2)))
      = zip (map snd (logs demo_data)) (map snd (calls (demo_run 2)))"
    by simp
  then have "map (\<lambda>(m, res). (m, Inr res :: error + string)) (annotation_logs (conv (demo_run 2)))
      = [(''hi'', Inr ''+''), (''yo'', Inr ''++''), (''bye'', Inr ''+++'')]"
    by (simp add: c demo_data_def)
  then have "annotation_logs (conv (demo_run 2)) = [(''hi'', ''+''), (''yo'', ''++''), (''bye'', ''+++'')]"
    by (auto simp: map_eq_Cons_conv)
  with ok c show ?thesis by simp
qed

lemma fst_of_tagged:
  assumes "map (\<lambda>(m, res). (m, Inr res :: error + string)) L = zip ms cs" "length cs = length ms"
  shows "map fst L = ms"
proof -
  have "map fst (map (\<lambda>(m, res). (m, Inr res :: error + string)) L) = map fst L"
    by (simp add: case_prod_beta o_def)
  with assms show ?thesis by simp
qed

text \<open>
  Claim C3, as the code has it.  Over a transcript of three messages with history
  length 1, a run that completes leaves three log entries, and the window of the
  second call of \<open>speak\<close> holds exactly the second message, the one being
  annotated: the entry is appended before the call, and the first message has
  been evicted by then.
\<close>

theorem second_call_sees_current_message:
  assumes "logs d = [(u1, m1), (u2, m2), (u3, m3)]"
    and "self = AnnotationConv_init a d 1"
    and "r = begin_annotation fmt fill self verbose w"
    and "raised r = None"
  shows "length (annotation_logs (conv r)) = 3 \<and> fst (calls r ! 1) = [fmt u2 m2]"
proof -
  have s: "conv_data_dict self = d" "annotation_logs self = []" "history_ctx_len self = 1"
    using assms(2) by (simp_all add: AnnotationConv_init_def)
  from begin_logs [OF assms(3,4)] have len: "length (annotation_logs (conv r)) = 3" "length (calls r) = 3"
    by (auto simp: s assms(1))
  have "0 \<le> history_ctx_len self" by (simp add: s)
  from begin_calls [OF this assms(3)] len
  have "fst (calls r ! 1) = last_n 1 (take 2 (entries fmt self))"
    by (simp add: s numeral_2_eq_2)
  then show ?thesis
    using len by (simp add: entries_def s assms(1) last_n_def)
qed

theorem second_call_sees_current_message_witness:
  "raised (demo_run 1) = None \<and>
   length (annotation_logs (conv (demo_run 1))) = 3 \<and>
   fst (calls (demo_run 1) ! 1) = [''bob: yo'']"
proof -
  have ok: "raised (demo_run 1) = None" by (simp add: demo_defs)
  have l: "logs demo_data = [(''alice'', ''hi''), (''bob'', ''yo''), (''alice'', ''bye'')]"
    by (simp add: demo_data_def)
  from second_call_sees_current_message [OF l refl demo_run_def ok] ok
  show ?thesis by (simp add: demo_format_def)
qed

text \<open>
  Claim C3 as stated asks for the second window to hold only the first message;
  on the example run it holds only the second.
\<close>

theorem second_call_window_counterexample:
  "\<not> (length (annotation_logs (conv (demo_run 1))) = 3 \<and>
      fst (calls (demo_run 1) ! 1) = [demo_format ''alice'' ''hi''])"
  by (simp add: demo_defs)

section \<open>Properties of the actors\<close>

text \<open>
  Claim C6.  \<open>speak\<close> makes exactly one call of the model, with the two-part prompt
  (system prompt, then the message prompt of the variant) and the stop list
  \<open>["User"]\<close>; it returns what the model returned, leaves the actor as it was, and
  prints nothing.
\<close>

theorem speak_one_call:
  "fst (speak a h w) = fst (model a [system_prompt a, message_prompt a h] [''User''] (model_state w)) \<and>
   fst (snd (speak a h w)) = a \<and>
   prompt_log (snd (snd (speak a h w))) =
     prompt_log w @ [([system_prompt a, message_prompt a h], [''User''])] \<and>
   length (prompt_log (snd (snd (speak a h w)))) = Suc (length (prompt_log w)) \<and>
   model_state (snd (snd (speak a h w))) =
     snd (model a [system_prompt a, message_prompt a h] [''User''] (model_state w)) \<and>
   stdout (snd (snd (speak a h w))) = stdout w"
  by (simp add: speak_eq)

theorem speak_one_call_witness:
  "fst (speak demo_annotator [''alice: hi''] demo_world) = Inr ''+'' \<and>
   fst (snd (speak demo_annotator [''alice: hi''] demo_world)) = demo_annotator \<and>
   length (prompt_log (snd (snd (speak demo_annotator [''alice: hi''] demo_world)))) = 1"
  using speak_one_call [of demo_annotator "[''alice: hi'']" demo_world]
  by (simp add: demo_annotator_def demo_world_def demo_model_def LlmActor_init_def)

text \<open>
  Claim C7.  The user variant's message prompt is the history joined by newlines,
  followed by the cue naming the actor as the next poster; the annotator variant's
  is the heading "Conversation so far:", the joined history and the cue "Output:".
  The system prompt and \<open>describe\<close> do not depend on the variant, and the prompt
  that \<open>speak\<close> sends differs between the variants in the message prompt only.
\<close>

theorem variants_differ_in_message_prompt:
  "message_prompt (a\<lparr>kind := LLMUser\<rparr>) h =
     \<lparr>role = ''user'', content = join newline h @ newline @ ''User '' @ name a @ '' posted:''\<rparr> \<and>
   message_prompt (a\<lparr>kind := LLMAnnotator\<rparr>) h =
     \<lparr>role = ''user'',
      content = ''Conversation so far:'' @ newline @ newline @ join newline h @ newline @ ''Output:''\<rparr> \<and>
   system_prompt (a\<lparr>kind := kd\<rparr>) = system_prompt a \<and>
   describe (a\<lparr>kind := kd\<rparr>) = describe a \<and>
   prompt_log (snd (snd (speak (a\<lparr>kind := kd\<rparr>) h w))) =
     prompt_log w @ [([system_prompt a, message_prompt (a\<lparr>kind := kd\<rparr>) h], [''User''])]"
  by (simp add: speak_eq message_prompt_def system_prompt_def describe_def get_name_def)

theorem variants_differ_in_message_prompt_witness:
  "content (message_prompt (demo_annotator\<lparr>kind := LLMUser\<rparr>) [''alice: hi'', ''bob: yo'']) =
     ''alice: hi'' @ [CHR 0x0A] @ ''bob: yo'' @ [CHR 0x0A] @ ''User judge posted:'' \<and>
   content (message_prompt (demo_annotator\<lparr>kind := LLMAnnotator\<rparr>) [''alice: hi'', ''bob: yo'']) =
     ''Conversation so far:'' @ [CHR 0x0A, CHR 0x0A] @ ''alice: hi'' @ [CHR 0x0A] @ ''bob: yo''
       @ [CHR 0x0A] @ ''Output:''"
  using variants_differ_in_message_prompt [of demo_annotator "[''alice: hi'', ''bob: yo'']"]
  by (simp add: demo_annotator_def LlmActor_init_def newline_def)

section \<open>Export of an annotation run\<close>

text \<open>
  Claim C8.  After a completed run on a fresh \<open>AnnotationConv\<close>, the \<open>"logs"\<close>
  field of \<open>to_dict\<close> is the annotation log, reading the field back gives the same
  list, and that list is the sequence of (message, annotation) pairs that the run
  produced, in order.
\<close>

theorem export_logs_roundtrip:
  assumes "self = AnnotationConv_init a d k"
    and "r = begin_annotation fmt fill self verbose w"
    and "raised r = None"
  shows "dict_get (to_dict (conv r) now) ''logs'' = Some (VPairs (annotation_logs (conv r))) \<and>
         read_logs_field (to_dict (conv r) now) = Some (annotation_logs (conv r)) \<and>
         length (annotation_logs (conv r)) = length (logs d) \<and>
         map (\<lambda>(m, res). (m, Inr res)) (annotation_logs (conv r)) =
           zip (map snd (logs d)) (map snd (calls r))"
proof -
  have s: "conv_data_dict self = d" "annotation_logs self = []"
    using assms(1) by (simp_all add: AnnotationConv_init_def)
  have "dict_get (to_dict (conv r) now) ''logs'' = Some (VPairs (annotation_logs (conv r)))"
    by (simp add: dict_get_def to_dict_def)
  moreover from this have "read_logs_field (to_dict (conv r) now) = Some (annotation_logs (conv r))"
    by (simp add: read_logs_field_def)
  moreover from begin_logs [OF assms(2,3)]
  have "length (annotation_logs (conv r)) = length (logs d) \<and>
        map (\<lambda>(m, res). (m, Inr res)) (annotation_logs (conv r)) =
           zip (map snd (logs d)) (map snd (calls r))"
    by (auto simp: s)
  ultimately show ?thesis by simp
qed

theorem export_logs_roundtrip_witness:
  "raised (demo_run 2) = None \<and>
   read_logs_field (to_dict (conv (demo_run 2)) ''26-11-04-10-00'') =
     Some [(''hi'', ''+''), (''yo'', ''++''), (''bye'', ''+++'')]"
proof -
  have ok: "raised (demo_run 2) = None" by (simp add: demo_defs)
  have "annotation_logs (conv (demo_run 2)) = [(''hi'', ''+''), (''yo'', ''++''), (''bye'', ''+++'')]"
    by (simp add: demo_defs)
  with export_logs_roundtrip [OF refl demo_run_def ok, of "''26-11-04-10-00''"] ok
  show ?thesis by simp
qed

section \<open>Calling begin_annotation twice\<close>

text \<open>
  Claim C10.  \<open>begin_annotation\<close> does not reset the log: a second completed call
  on the same object keeps the \<open>n\<close> entries of the first and appends \<open>n\<close> more, one per
  message in transcript order, so the log has \<open>2 * n\<close> entries.  The windows of
  the second call are built from an empty deque again: its \<open>i\<close>-th window is the
  last \<open>min k i\<close> of the first \<open>i\<close> entries.
\<close>

theorem second_pass_appends:
  assumes "self = AnnotationConv_init a d k"
    and "r1 = begin_annotation fmt fill self v1 w1"
    and "raised r1 = None"
    and "r2 = begin_annotation fmt fill (conv r1) v2 w2"
    and "raised r2 = None"
  shows "length (annotation_logs (conv r1)) = length (logs d) \<and>
         length (annotation_logs (conv r2)) = 2 * length (logs d) \<and>
         take (length (logs d)) (annotation_logs (conv r2)) = annotation_logs (conv r1) \<and>
         map fst (annotation_logs (conv r2)) = map snd (logs d) @ map snd (logs d) \<and>
         length (calls r2) = length (logs d) \<and>
         (\<forall>i. 1 \<le> i \<and> i \<le> length (logs d) \<longrightarrow>
            fst (calls r2 ! (i - 1)) = last_n (min (nat k) i) (take i (entries fmt self)))"
proof -
  have s: "conv_data_dict self = d" "annotation_logs self = []" "history_ctx_len self = k"
    using assms(1) by (simp_all add: AnnotationConv_init_def)
  have fr: "conv_data_dict (conv r1) = d" "history_ctx_len (conv r1) = k"
    using begin_frame [of fmt fill self v1 w1] by (simp_all add: assms(2) s)
  from begin_logs [OF assms(2,3)] obtain L1 where
    L1: "annotation_logs (conv r1) = L1" "length L1 = length (logs d)"
        "length (calls r1) = length (logs d)"
        "map (\<lambda>(m, res). (m, Inr res)) L1 = zip (map snd (logs d)) (map snd (calls r1))"
    by (auto simp: s)
  from begin_logs [OF assms(4,5)] obtain L2 where
    L2: "annotation_logs (conv r2) = L1 @ L2" "length L2 = length (logs d)"
        "length (calls r2) = length (logs d)"
        "map (\<lambda>(m, res). (m, Inr res)) L2 = zip (map snd (logs d)) (map snd (calls r2))"
    by (auto simp: fr L1(1))
  have f1: "map fst L1 = map snd (logs d)" using fst_of_tagged [OF L1(4)] L1(3) by simp
  have f2: "map fst L2 = map snd (logs d)" using fst_of_tagged [OF L2(4)] L2(3) by simp
  have e: "entries fmt (conv r1) = entries fmt self" by (simp add: entries_def fr s)
  have n: "length (entries fmt self) = length (logs d)" by (simp add: entries_def s)
  have k: "0 \<le> history_ctx_len (conv r1)"
    using assms(4,5) begin_raised_None deque_new_Inr by blast
  note bc = begin_calls [OF k assms(4)]
  have win: "fst (calls r2 ! (i - 1)) = last_n (min (nat k) i) (take i (entries fmt self))"
    if "1 \<le> i" "i \<le> length (logs d)" for i
  proof -
    from that L2(3) have "i - 1 < length (calls r2)" "Suc (i - 1) = i" by simp_all
    with bc have "fst (calls r2 ! (i - 1)) = last_n (nat k) (take i (entries fmt self))"
      by (metis e fr(2))
    then show ?thesis using that n by (simp add: last_n_take_min)
  qed
  show ?thesis
    using L1 L2 f1 f2 win by simp
qed

theorem second_pass_appends_witness:
  "raised (demo_run 2) = None \<and>
   raised (begin_annotation demo_format id (conv (demo_run 2)) False (world_after (demo_run 2))) = None \<and>
   length (annotation_logs (conv (begin_annotation demo_format id (conv (demo_run 2)) False
       (world_after (demo_run 2))))) = 6 \<and>
   fst (calls (begin_annotation demo_format id (conv (demo_run 2)) False
       (world_after (demo_run 2))) ! 0) = [''alice: hi''] \<and>
   final_window (demo_run 2) = [''bob: yo'', ''alice: bye'']"
proof -
  let ?r2 = "begin_annotation demo_format id (conv (demo_run 2)) False (world_after (demo_run 2))"
  have ok1: "raised (demo_run 2) = None" by (simp add: demo_defs)
  have ok2: "raised ?r2 = None" by (simp add: demo_defs)
  note t = second_pass_appends [OF refl demo_run_def ok1 refl ok2]
  have l: "length (logs demo_data) = 3" by (simp add: demo_data_def)
  from t l have len: "length (annotation_logs (conv ?r2)) = 6" by simp
  from t have "1 \<le> (1::nat) \<and> 1 \<le> length (logs demo_data) \<longrightarrow>
      fst (calls ?r2 ! (1 - 1)) = last_n (min (nat 2) 1)
        (take 1 (entries demo_format (AnnotationConv_init demo_annotator demo_data 2)))"
    by blast
  then have "fst (calls ?r2 ! 0) = [''alice: hi'']"
    using l by (simp add: demo_entries last_n_def)
  moreover have "final_window (demo_run 2) = [''bob: yo'', ''alice: bye'']"
    by (simp add: demo_defs)
  ultimately show ?thesis using ok1 ok2 len by simp
qed

section \<open>Properties of the configuration\<close>

lemma num_eq_refl:
  "num_eq (Finite x) (JInt i) = (x = of_int i)"
  "num_eq (Finite x) (JBool b) = (x = (if b then 1 else 0))"
  "num_eq f (JFloat g) = float_eq f g"
  by (simp_all add: num_eq_def number_of_def float_eq_def)

lemma py_eq_items_lookup:
  "\<forall>p\<in>set ps. map_of other (fst p) = Some (snd p) \<and> py_eq (snd p) (snd p) \<Longrightarrow>
   py_eq_items ps other"
  by (induction ps) auto

lemma py_eq_refl: "nan_free x \<Longrightarrow> py_eq x x"
proof (induction x)
  case (JArr xs)
  have "py_eq_list ys ys" if "nan_free_list ys" "set ys \<subseteq> set xs" for ys
    using that JArr.IH by (induction ys) auto
  with JArr.prems show ?case by simp
next
  case (JObj kvs)
  from JObj.prems have d: "distinct (map fst kvs)" and nf: "nan_free_items kvs" by simp_all
  have sub: "nan_free v" if "(k, v) \<in> set ps" "nan_free_items ps" for k v ps
    using that by (induction ps) auto
  have "map_of kvs k = Some v \<and> py_eq v v" if "(k, v) \<in> set kvs" for k v
  proof -
    have "map_of kvs k = Some v" using d that by simp
    moreover have "nan_free v" using sub [OF that nf] .
    then have "py_eq v v" using JObj.IH [of "(k, v)" v] that by simp
    ultimately show ?thesis by simp
  qed
  then have "py_eq_items kvs kvs" by (intro py_eq_items_lookup) auto
  then show ?case by simp
qed (simp_all add: num_eq_refl float_eq_def)

lemma py_eq_list_refl: "nan_free_list xs \<Longrightarrow> py_eq_list xs xs"
  by (induction xs) (simp_all add: py_eq_refl)

lemma LLMConvData_eq_refl: "nan_free_obj r \<Longrightarrow> LLMConvData_eq r r"
  unfolding nan_free_obj_def LLMConvData_eq_def by (rule py_eq_list_refl)


lemma filter_dict_set_out:
  "k \<notin> A \<Longrightarrow> filter (\<lambda>(k, v). k \<in> A) (dict_set d k v) = filter (\<lambda>(k, v). k \<in> A) d"
  by (induction d k v rule: dict_set.induct) auto

lemma filter_dict_set_in:
  "k \<in> A \<Longrightarrow>
   filter (\<lambda>(k, v). k \<in> A) (dict_set d k v) = dict_set (filter (\<lambda>(k, v). k \<in> A) d) k v"
  by (induction d k v rule: dict_set.induct) auto

lemma filter_fold_dict_set:
  "filter (\<lambda>(k, v). k \<in> A) (fold (\<lambda>(k, v) d. dict_set d k v) kvs acc) =
   fold (\<lambda>(k, v) d. dict_set d k v) (filter (\<lambda>(k, v). k \<in> A) kvs) (filter (\<lambda>(k, v). k \<in> A) acc)"
proof (induction kvs arbitrary: acc)
  case Nil
  show ?case by simp
next
  case (Cons p kvs)
  obtain k v where p: "p = (k, v)" by (cases p)
  show ?case
    using Cons.IH [of "dict_set acc k v"]
    by (cases "k \<in> A") (simp_all add: p filter_dict_set_in filter_dict_set_out)
qed

lemma filter_dict_of:
  "filter (\<lambda>(k, v). k \<in> A) (dict_of kvs) = dict_of (filter (\<lambda>(k, v). k \<in> A) kvs)"
  using filter_fold_dict_set [of A kvs "[]"] by (simp add: dict_of_def)

lemma filter_dict_of_unknown:
  "k \<notin> A \<Longrightarrow>
   filter (\<lambda>(k, v). k \<in> A) (dict_of (xs @ (k, v) # ys)) =
   filter (\<lambda>(k, v). k \<in> A) (dict_of (xs @ ys))"
  by (simp add: filter_dict_of)

lemma dict_of_asdict: "dict_of (asdict r) = asdict r"
  by (simp add: dict_of_def asdict_def)

lemma filter_asdict: "filter (\<lambda>(k, v). k \<in> field_set) (asdict r) = asdict r"
  by (simp add: asdict_def field_set_def)

lemma kwargs_asdict: "LLMConvData_kwargs (asdict r) = raw_post_init r"
  by (cases r) (simp add: LLMConvData_kwargs_def asdict_def field_set_def arg_or_def)

lemma from_json_file_asdict:
  "from_json_file path (fs(path \<mapsto> JObj (asdict r))) = raw_post_init r"
  by (simp add: from_json_file_def dict_of_asdict filter_asdict kwargs_asdict)

lemma no_unknown_asdict: "filter (\<lambda>(k, v). k \<notin> field_set) (asdict r) = []"
  by (simp add: asdict_def field_set_def)

lemma kwargs_unexpected:
  "k \<notin> field_set \<Longrightarrow>
   LLMConvData_kwargs (asdict r @ [(k, v)]) =
     Inl (TypeError (''got an unexpected keyword argument '' @ k))"
  by (simp add: LLMConvData_kwargs_def no_unknown_asdict)

lemma raw_post_init_of_typed:
  "raw_post_init (of_typed d) = (case post_init d of Inl e \<Rightarrow> Inl e | Inr d' \<Rightarrow> Inr (of_typed d'))"
  by (simp add: raw_post_init_def post_init_def of_typed_def py_len_def of_str_list_def)


text \<open>
  Claim C9, as the code has it.  For every object that passes \<open>__post_init__\<close>,
  whatever JSON values its fields hold, reading with \<open>from_json_file\<close> what
  \<open>to_json_file\<close> wrote gives an object with the same value in every field; the
  two compare equal with \<open>==\<close> when no \<open>nan\<close> occurs in them.  A key that is not a
  field of the dataclass changes nothing in what \<open>from_json_file\<close> returns,
  wherever it stands in the document, although the constructor alone raises
  \<open>TypeError\<close> for it: the filter of \<open>from_json_file\<close> removes it first.
\<close>

theorem json_file_roundtrip:
  assumes "raw_post_init r = Inr r" and "k \<notin> field_set"
  shows "from_json_file path (to_json_file r path fs) = Inr r \<and>
         (nan_free_obj r \<longrightarrow>
            (\<exists>r'. from_json_file path (to_json_file r path fs) = Inr r' \<and> LLMConvData_eq r r')) \<and>
         from_json_file path (fs(path \<mapsto> JObj (xs @ (k, v) # ys))) =
           from_json_file path (fs(path \<mapsto> JObj (xs @ ys))) \<and>
         from_json_file path (fs(path \<mapsto> JObj (asdict r @ [(k, v)]))) = Inr r \<and>
         LLMConvData_kwargs (asdict r @ [(k, v)]) =
           Inl (TypeError (''got an unexpected keyword argument '' @ k))"
proof -
  have 1: "from_json_file path (to_json_file r path fs) = Inr r"
    using assms(1) by (simp add: to_json_file_def from_json_file_asdict)
  have 2: "from_json_file path (fs(path \<mapsto> JObj (xs @ (k, v) # ys))) =
           from_json_file path (fs(path \<mapsto> JObj (xs @ ys)))" for xs ys
    using filter_dict_of_unknown [OF assms(2), of xs v ys]
    by (simp add: from_json_file_def)
  have "from_json_file path (fs(path \<mapsto> JObj (asdict r @ [(k, v)]))) =
        from_json_file path (fs(path \<mapsto> JObj (asdict r @ [])))"
    by (rule 2)
  also have "\<dots> = Inr r"
    using assms(1) by (simp add: from_json_file_asdict)
  finally have 3: "from_json_file path (fs(path \<mapsto> JObj (asdict r @ [(k, v)]))) = Inr r" .
  show ?thesis
    using 1 2 3 kwargs_unexpected [OF assms(2)] LLMConvData_eq_refl by blast
qed

theorem json_file_roundtrip_witness:
  "raw_post_init (of_typed demo_config) = Inr (of_typed demo_config) \<and>
   ''comment'' \<notin> field_set \<and>
   nan_free_obj (of_typed demo_config) \<and>
   from_json_file ''conv.json'' (to_json_file (of_typed demo_config) ''conv.json'' Map.empty) =
     Inr (of_typed demo_config) \<and>
   LLMConvData_eq (of_typed demo_config) (of_typed demo_config) \<and>
   from_json_file ''conv.json''
     [''conv.json'' \<mapsto> JObj (asdict (of_typed demo_config) @ [(''comment'', JStr ''draft'')])] =
     Inr (of_typed demo_config) \<and>
   LLMConvData_kwargs (asdict (of_typed demo_config) @ [(''comment'', JStr ''draft'')]) =
     Inl (TypeError ''got an unexpected keyword argument comment'')"
proof -
  have h: "raw_post_init (of_typed demo_config) = Inr (of_typed demo_config)"
    by (simp add: raw_post_init_of_typed post_init_def demo_config_def)
  have k: "''comment'' \<notin> field_set" by (simp add: field_set_def)
  have n: "nan_free_obj (of_typed demo_config)"
    by (simp add: nan_free_obj_def asdict_def of_typed_def demo_config_def of_str_list_def
        of_optional_def)
  note t = json_file_roundtrip [OF h k, where path = "''conv.json''" and fs = Map.empty
      and v = "JStr ''draft''"]
  from t have a: "from_json_file ''conv.json'' (to_json_file (of_typed demo_config) ''conv.json'' Map.empty)
      = Inr (of_typed demo_config)"
    by blast
  from t n a have e: "LLMConvData_eq (of_typed demo_config) (of_typed demo_config)"
    by auto
  from t have b: "from_json_file ''conv.json''
     [''conv.json'' \<mapsto> JObj (asdict (of_typed demo_config) @ [(''comment'', JStr ''draft'')])]
      = Inr (of_typed demo_config)"
    by blast
  from t have c: "LLMConvData_kwargs (asdict (of_typed demo_config) @ [(''comment'', JStr ''draft'')]) =
     Inl (TypeError ''got an unexpected keyword argument comment'')"
    by simp
  from h k n a e b c show ?thesis by blast
qed

text \<open>
  Claim C9 as stated promises an equal object for every valid instance.  With a
  weight that is \<open>nan\<close> the object read back holds the same values and is not
  \<open>==\<close> to the original, since \<open>nan\<close> is not equal to itself.
\<close>

theorem json_file_roundtrip_counterexample:
  "raw_post_init (of_typed demo_nan_config) = Inr (of_typed demo_nan_config) \<and>
   from_json_file ''conv.json'' (to_json_file (of_typed demo_nan_config) ''conv.json'' Map.empty) =
     Inr (of_typed demo_nan_config) \<and>
   \<not> LLMConvData_eq (of_typed demo_nan_config)
       (projr (from_json_file ''conv.json''
          (to_json_file (of_typed demo_nan_config) ''conv.json'' Map.empty)))"
proof -
  have h: "raw_post_init (of_typed demo_nan_config) = Inr (of_typed demo_nan_config)"
    by (simp add: raw_post_init_of_typed post_init_def demo_nan_config_def demo_config_def)
  then have a: "from_json_file ''conv.json''
      (to_json_file (of_typed demo_nan_config) ''conv.json'' Map.empty) = Inr (of_typed demo_nan_config)"
    by (simp add: to_json_file_def from_json_file_asdict)
  have "\<not> LLMConvData_eq (of_typed demo_nan_config) (of_typed demo_nan_config)"
    by (simp add: LLMConvData_eq_def asdict_def of_typed_def demo_nan_config_def demo_config_def
        of_str_list_def of_optional_def num_eq_def number_of_def float_eq_def)
  with h a show ?thesis by simp
qed

lemma kwargs_valid:
  "LLMConvData_kwargs kw = Inr r \<Longrightarrow>
   \<exists>n. py_len (raw_user_names r) = Inr n \<and> py_len (raw_user_attributes r) = Inr n"
  by (auto simp: LLMConvData_kwargs_def raw_post_init_def
      split: list.splits option.splits sum.splits if_splits)

text \<open>
  Claim C4.  Construction fails with the \<open>AssertionError\<close> of \<open>__post_init__\<close>
  when \<open>user_names\<close> and \<open>user_attributes\<close> differ in length, and gives the object
  when they agree; an object built from keyword arguments has two fields of equal
  length.
\<close>

theorem construction_checks_lengths:
  "(length names \<noteq> length attrs \<longrightarrow>
      LLMConvData_init ctx names attrs instr tm_type cfg cl hl mn ma mi =
        Inl (AssertionError ''Number of actor names and actor attribute lists must be the same'')) \<and>
   (length names = length attrs \<longrightarrow>
      LLMConvData_init ctx names attrs instr tm_type cfg cl hl mn ma mi =
        Inr \<lparr>data_context = ctx, user_names = names, user_attributes = attrs,
             user_instructions = instr, turn_manager_type = tm_type, turn_manager_config = cfg,
             conv_len = cl, data_history_ctx_len = hl, moderator_name = mn,
             moderator_attributes = ma, moderator_instructions = mi\<rparr>) \<and>
   (\<forall>r. LLMConvData_kwargs kw = Inr r \<longrightarrow>
      (\<exists>n. py_len (raw_user_names r) = Inr n \<and> py_len (raw_user_attributes r) = Inr n))"
  using kwargs_valid [of kw] by (simp add: LLMConvData_init_def post_init_def)


theorem construction_checks_lengths_witness:
  "length [''a'', ''b''] \<noteq> length [[''x'']] \<and>
   LLMConvData_init ''c'' [''a'', ''b''] [[''x'']] ''i'' ''round_robin'' ([] :: (string \<times> pyfloat) list)
       4 4 None None None =
     Inl (AssertionError ''Number of actor names and actor attribute lists must be the same'') \<and>
   isl (LLMConvData_init ''c'' [''a'', ''b''] [[''x''], [''y'']] ''i'' ''round_robin''
       ([] :: (string \<times> pyfloat) list) 4 4 None None None) = False"
proof -
  have a: "length [''a'', ''b''] \<noteq> length [[''x'']]" by simp
  have b: "length [''a'', ''b''] = length [[''x''], [''y'']]" by simp
  from a construction_checks_lengths [where names = "[''a'', ''b'']" and attrs = "[[''x'']]"
      and ctx = "''c''" and instr = "''i''" and tm_type = "''round_robin''"
      and cfg = "[] :: (string \<times> pyfloat) list" and cl = 4 and hl = 4 and mn = None and ma = None
      and mi = None and kw = "[] :: (string \<times> json) list"]
  have c: "LLMConvData_init ''c'' [''a'', ''b''] [[''x'']] ''i'' ''round_robin'' ([] :: (string \<times> pyfloat) list)
       4 4 None None None =
     Inl (AssertionError ''Number of actor names and actor attribute lists must be the same'')"
    by blast
  from b construction_checks_lengths [where names = "[''a'', ''b'']" and attrs = "[[''x''], [''y'']]"
      and ctx = "''c''" and instr = "''i''" and tm_type = "''round_robin''"
      and cfg = "[] :: (string \<times> pyfloat) list" and cl = 4 and hl = 4 and mn = None and ma = None
      and mi = None and kw = "[] :: (string \<times> json) list"]
  have "\<exists>d. LLMConvData_init ''c'' [''a'', ''b''] [[''x''], [''y'']] ''i'' ''round_robin''
       ([] :: (string \<times> pyfloat) list) 4 4 None None None = Inr d"
    by blast
  then have d: "isl (LLMConvData_init ''c'' [''a'', ''b''] [[''x''], [''y'']] ''i'' ''round_robin''
       ([] :: (string \<times> pyfloat) list) 4 4 None None None) = False"
    by auto
  from a c d show ?thesis by blast
qed

lemma user_loop_ok:
  "\<forall>i\<in>set ixs. i < length (user_attributes (data g)) \<Longrightarrow> \<exists>us. user_loop g ixs acc = Inr us"
  by (induction ixs arbitrary: acc) simp_all

lemma produce_after_init:
  assumes "length (user_names d) = length (user_attributes d)"
    and "LLMConvGenerator_init factory d um mm = Inr g"
  shows "\<exists>c. produce_conversation g = Inr c \<and>
            (moderator_name d = None \<or> moderator_attributes d = None \<or>
               moderator_instructions d = None \<or> mm = None \<longrightarrow> arg_moderator c = None) \<and>
            (\<forall>n m attrs instr.
               moderator_name d = Some n \<and> mm = Some m \<and> moderator_attributes d = Some attrs \<and>
               moderator_instructions d = Some instr \<longrightarrow>
               arg_moderator c = Some (LlmActor_init LLMUser m n attrs (data_context d) instr))"
proof -
  from assms(2) have g: "data g = d" "moderator_model g = mm"
    by (auto simp: LLMConvGenerator_init_def split: option.splits if_splits sum.splits)
  have "\<forall>i\<in>set [0..<length (user_names (data g))]. i < length (user_attributes (data g))"
    using assms(1) g by simp
  from user_loop_ok [OF this] obtain us where
    us: "user_loop g [0..<length (user_names (data g))] [] = Inr us" by blast
  show ?thesis
    using us g
    by (auto simp: produce_conversation_def Let_def split: option.splits)
qed

text \<open>
  Claim C5, as the code has it.  \<open>__post_init__\<close> does not look at the moderator
  fields: with lists of equal length, construction succeeds for every combination
  of them.  \<open>LLMConvGenerator.__init__\<close> raises \<open>AssertionError\<close> when there is no
  user model, and when \<open>moderator_name\<close> is present and there is no moderator
  model; otherwise it fails exactly when the turn manager factory does.  Once the
  generator is built, \<open>produce_conversation\<close> returns a conversation; its
  moderator is absent as soon as one of \<open>moderator_name\<close>, \<open>moderator_attributes\<close>,
  \<open>moderator_instructions\<close> or the moderator model is absent, and is the \<open>LLMUser\<close>
  built from them when all four are present.
\<close>

theorem partial_moderator_accepted:
  assumes "length (user_names d) = length (user_attributes d)"
  shows "post_init (d\<lparr>moderator_name := mn, moderator_attributes := ma, moderator_instructions := mi\<rparr>) =
           Inr (d\<lparr>moderator_name := mn, moderator_attributes := ma, moderator_instructions := mi\<rparr>) \<and>
         LLMConvGenerator_init factory d None mm = Inl (AssertionError ''User model cannot be None'') \<and>
         (mm = None \<and> moderator_name d \<noteq> None \<longrightarrow>
            LLMConvGenerator_init factory d (Some u) mm =
              Inl (AssertionError ''Moderator agent was not given a model.'')) \<and>
         (\<not> (mm = None \<and> moderator_name d \<noteq> None) \<longrightarrow>
            (\<forall>e. factory (turn_manager_type d) (user_names d) = Inl e \<longrightarrow>
                 LLMConvGenerator_init factory d (Some u) mm = Inl e) \<and>
            (\<forall>tm. factory (turn_manager_type d) (user_names d) = Inr tm \<longrightarrow>
               (\<exists>g c. LLMConvGenerator_init factory d (Some u) mm = Inr g \<and>
                  produce_conversation g = Inr c \<and>
                  (moderator_name d = None \<or> moderator_attributes d = None \<or>
                     moderator_instructions d = None \<or> mm = None \<longrightarrow> arg_moderator c = None) \<and>
                  (\<forall>n m attrs instr.
                     moderator_name d = Some n \<and> mm = Some m \<and> moderator_attributes d = Some attrs \<and>
                     moderator_instructions d = Some instr \<longrightarrow>
                     arg_moderator c = Some (LlmActor_init LLMUser m n attrs (data_context d) instr)))))"
proof -
  have 1: "post_init (d\<lparr>moderator_name := mn, moderator_attributes := ma, moderator_instructions := mi\<rparr>) =
           Inr (d\<lparr>moderator_name := mn, moderator_attributes := ma, moderator_instructions := mi\<rparr>)"
    using assms by (simp add: post_init_def)
  have 2: "LLMConvGenerator_init factory d None mm = Inl (AssertionError ''User model cannot be None'')"
    by (simp add: LLMConvGenerator_init_def)
  have 3: "LLMConvGenerator_init factory d (Some u) mm =
              Inl (AssertionError ''Moderator agent was not given a model.'')"
    if "mm = None \<and> moderator_name d \<noteq> None"
    using that by (simp add: LLMConvGenerator_init_def)
  have 4: "LLMConvGenerator_init factory d (Some u) mm = Inl e"
    if "\<not> (mm = None \<and> moderator_name d \<noteq> None)"
      "factory (turn_manager_type d) (user_names d) = Inl e" for e
    using that by (auto simp: LLMConvGenerator_init_def)
  have 5: "\<exists>g c. LLMConvGenerator_init factory d (Some u) mm = Inr g \<and>
                  produce_conversation g = Inr c \<and>
                  (moderator_name d = None \<or> moderator_attributes d = None \<or>
                     moderator_instructions d = None \<or> mm = None \<longrightarrow> arg_moderator c = None) \<and>
                  (\<forall>n m attrs instr.
                     moderator_name d = Some n \<and> mm = Some m \<and> moderator_attributes d = Some attrs \<and>
                     moderator_instructions d = Some instr \<longrightarrow>
                     arg_moderator c = Some (LlmActor_init LLMUser m n attrs (data_context d) instr))"
    if "\<not> (mm = None \<and> moderator_name d \<noteq> None)"
      "factory (turn_manager_type d) (user_names d) = Inr tm" for tm
  proof -
    from that have "LLMConvGenerator_init factory d (Some u) mm =
        Inr \<lparr>user_model = u, moderator_model = mm, data = d, next_turn_manager = tm\<rparr>"
      by (auto simp: LLMConvGenerator_init_def)
    with produce_after_init [OF assms this] show ?thesis by blast
  qed
  from 1 2 3 4 5 show ?thesis by blast
qed

theorem partial_moderator_accepted_witness:
  "length (user_names demo_config) = length (user_attributes demo_config) \<and>
   moderator_name demo_config = Some ''mod'' \<and>
   moderator_attributes demo_config = None \<and>
   LLMConvGenerator_init demo_factory demo_config (Some demo_model) None =
     Inl (AssertionError ''Moderator agent was not given a model.'') \<and>
   LLMConvGenerator_init demo_factory demo_config (Some demo_model) (Some demo_model) = Inr demo_generator \<and>
   isl (produce_conversation demo_generator) = False \<and>
   arg_moderator (projr (produce_conversation demo_generator)) = None"
proof -
  have h: "length (user_names demo_config) = length (user_attributes demo_config)"
    by (simp add: demo_config_def)
  have n: "moderator_name demo_config = Some ''mod''" "moderator_attributes demo_config = None"
    by (simp_all add: demo_config_def)
  have f: "demo_factory (turn_manager_type demo_config) (user_names demo_config) = Inr [''alice'', ''bob'']"
    by (simp add: demo_factory_def demo_config_def)
  note t = partial_moderator_accepted [OF h, where factory = demo_factory and u = demo_model]
  from t [where mm = None and mn = None and ma = None and mi = None] n have a:
    "LLMConvGenerator_init demo_factory demo_config (Some demo_model) None =
       Inl (AssertionError ''Moderator agent was not given a model.'')"
    by simp
  have i: "LLMConvGenerator_init demo_factory demo_config (Some demo_model) (Some demo_model)
      = Inr demo_generator"
    by (simp add: LLMConvGenerator_init_def demo_factory_def demo_generator_def demo_config_def)
  from t [where mm = "Some demo_model" and mn = None and ma = None and mi = None] f n
  have "\<exists>g c. LLMConvGenerator_init demo_factory demo_config (Some demo_model) (Some demo_model) = Inr g \<and>
      produce_conversation g = Inr c \<and> arg_moderator c = None"
    by simp
  then obtain g c where
    "LLMConvGenerator_init demo_factory demo_config (Some demo_model) (Some demo_model) = Inr g"
    "produce_conversation g = Inr c" "arg_moderator c = None"
    by blast
  with i have "produce_conversation demo_generator = Inr c" "arg_moderator c = None" by simp_all
  with h n a i show ?thesis by simp
qed

text \<open>
  Claim C5 as stated asks for an error when the moderator fields are given in part.
  The example configuration has a moderator name only; it is constructed, the
  generator is built and the conversation is produced, without a moderator.
\<close>

theorem partial_moderator_counterexample:
  "moderator_name demo_config = Some ''mod'' \<and>
   moderator_attributes demo_config = None \<and>
   moderator_instructions demo_config = None \<and>
   post_init demo_config = Inr demo_config \<and>
   LLMConvGenerator_init demo_factory demo_config (Some demo_model) (Some demo_model) = Inr demo_generator \<and>
   isl (produce_conversation demo_generator) = False \<and>
   arg_moderator (projr (produce_conversation demo_generator)) = None"
  by (simp add: demo_config_def post_init_def LLMConvGenerator_init_def demo_factory_def
      demo_generator_def produce_conversation_def Let_def upt_rec)

end
